theory Spec2Isabelle
  imports Complex_Main "HOL-Library.Signed_Division"
begin

section \<open>Job records and the job store\<close>

text \<open>
  The download-job subsystem of \<^verbatim>\<open>src/index.ts\<close>. A job record is the interface
  \<^verbatim>\<open>JobResult\<close>; the field \<^verbatim>\<open>size\<close> is called \<open>size_bytes\<close> here, since
  \<open>size\<close> is a constant of HOL. Timestamps are the strings that
  \<^verbatim>\<open>new Date().toISOString()\<close> returns, job identifiers the strings that
  \<^verbatim>\<open>crypto.randomUUID()\<close> returns. File identifiers that went through the request
  schema are integers.
\<close>

datatype JobStatus = Queued | Processing | Completed | Failed

type_synonym timestamp = string
type_synonym jobId = string

record JobResult =
  file_id :: int
  status :: JobStatus
  progress :: int
  downloadUrl :: "string option"
  size_bytes :: "int option"
  processingTimeMs :: "int option"
  message :: string
  createdAt :: timestamp
  updatedAt :: timestamp

text \<open>
  The process state that the handlers and the worker share: \<open>jobs\<close> is the job store
  (the Redis keys \<^verbatim>\<open>job:<id>\<close> or the map \<^verbatim>\<open>inMemoryJobs\<close>; both are read and
  overwritten as whole records, and the JSON encoding of a record is taken to decode to the
  same record), \<open>queue\<close> the BullMQ queue \<^verbatim>\<open>download-jobs\<close>, \<open>background\<close> the calls
  of \<^verbatim>\<open>processDownloadJob\<close> that the fallback branch started without awaiting them.
  \<open>writes\<close> is a history of the calls of \<^verbatim>\<open>setJobStatus\<close>, oldest first; the
  program does not keep it, it is there so that a statement about every write can be made.
\<close>

record World =
  jobs :: "jobId \<rightharpoonup> JobResult"
  queue :: "(jobId \<times> int) list"
  background :: "(jobId \<times> int) list"
  writes :: "(jobId \<times> JobResult) list"

definition emptyWorld :: World where
  "emptyWorld = \<lparr>jobs = Map.empty, queue = [], background = [], writes = []\<rparr>"

record Env =
  S3_BUCKET_NAME :: string
  redisConnection :: bool

definition getJobStatus :: "World \<Rightarrow> jobId \<Rightarrow> JobResult option" where
  "getJobStatus w jobId = jobs w jobId"

definition setJobStatus :: "jobId \<Rightarrow> JobResult \<Rightarrow> World \<Rightarrow> World" where
  "setJobStatus jobId r w =
     w\<lparr>jobs := (jobs w)(jobId \<mapsto> r), writes := writes w @ [(jobId, r)]\<rparr>"

text \<open>The store drops a Redis record 24 hours after its last write.\<close>

definition expire :: "jobId \<Rightarrow> World \<Rightarrow> World" where
  "expire jobId w = w\<lparr>jobs := (jobs w)(jobId := None)\<rparr>"

section \<open>The status route\<close>

datatype ErrorResponse = BadRequest | NotFound string

text \<open>
  \<^verbatim>\<open>GET /v1/download/status/:jobId\<close>. The route declares the schema \<^verbatim>\<open>z.uuid()\<close>
  for its path parameter: the parameter is checked before the handler runs, and one that
  fails is answered with status 400. The check is the library's; it is the argument
  \<open>isUuid\<close>. The handler, which reads the checked parameter, answers with the 404 body
  or with the job identifier and the stored record. The second component is the state
  after the call.
\<close>

definition jobStatusRoute ::
  "(string \<Rightarrow> bool) \<Rightarrow> jobId \<Rightarrow> World \<Rightarrow> (ErrorResponse + jobId \<times> JobResult) \<times> World" where
  "jobStatusRoute isUuid jobId w =
     (if \<not> isUuid jobId then (Inl BadRequest, w)
      else
        (case getJobStatus w jobId of
           None \<Rightarrow> (Inl (NotFound (''Job '' @ jobId @ '' not found'')), w)
         | Some jobStatus \<Rightarrow> (Inr (jobId, jobStatus), w)))"

section \<open>Numbers and the storage key\<close>

text \<open>
  A JavaScript number is a double. \<open>Finite q\<close> stands for the finite double of value
  \<open>q\<close>; the three other values are \<^verbatim>\<open>NaN\<close> and the infinities. \<^verbatim>\<open>Math.abs\<close>
  and \<^verbatim>\<open>Math.floor\<close> are exact on doubles, and \<^verbatim>\<open>Math.floor\<close> returns a whole
  number, so its result is a number over \<open>int\<close>. \<^verbatim>\<open>String\<close> prints a whole number
  of magnitude below \<open>2 ^ 53\<close> with all its decimal digits; beyond that bound not every
  integer is a double and the digits printed are the shortest that read back as the same
  double (in exponent notation from \<open>10 ^ 21\<close> on), which \<open>String_number\<close> does not describe:
  the statements about \<open>Finite q\<close> below carry the bound.
\<close>

datatype 'a number = NaN | Infinity | NegInfinity | Finite 'a

fun Math_abs :: "rat number \<Rightarrow> rat number" where
  "Math_abs NaN = NaN"
| "Math_abs Infinity = Infinity"
| "Math_abs NegInfinity = Infinity"
| "Math_abs (Finite q) = Finite \<bar>q\<bar>"

fun Math_floor :: "rat number \<Rightarrow> int number" where
  "Math_floor NaN = NaN"
| "Math_floor Infinity = Infinity"
| "Math_floor NegInfinity = NegInfinity"
| "Math_floor (Finite q) = Finite \<lfloor>q\<rfloor>"

definition digit :: "nat \<Rightarrow> char" where
  "digit d = ''0123456789'' ! d"

fun String_nat :: "nat \<Rightarrow> string" where
  "String_nat n = (if n < 10 then [digit n] else String_nat (n div 10) @ [digit (n mod 10)])"

declare String_nat.simps [simp del]

fun String_number :: "int number \<Rightarrow> string" where
  "String_number NaN = ''NaN''"
| "String_number Infinity = ''Infinity''"
| "String_number NegInfinity = ''-Infinity''"
| "String_number (Finite i) = (if i < 0 then ''-'' else []) @ String_nat (nat \<bar>i\<bar>)"

definition sanitizeS3Key :: "rat number \<Rightarrow> string" where
  "sanitizeS3Key fileId =
     (let sanitizedId = Math_floor (Math_abs fileId)
      in ''downloads/'' @ String_number sanitizedId @ ''.zip'')"

text \<open>The value a string of decimal digits denotes, to say what a decimal representation is.\<close>

definition digit_value :: "char \<Rightarrow> nat" where
  "digit_value c = of_char c - 48"

definition decimal_value :: "string \<Rightarrow> nat" where
  "decimal_value ds = foldl (\<lambda>acc c. 10 * acc + digit_value c) 0 ds"

definition is_digit :: "char \<Rightarrow> bool" where
  "is_digit c = (c \<in> set ''0123456789'')"

text \<open>\<open>is_decimal ds n\<close>: the string \<open>ds\<close> is the decimal representation of \<open>n\<close>.\<close>

definition is_decimal :: "string \<Rightarrow> nat \<Rightarrow> bool" where
  "is_decimal ds n =
     (ds \<noteq> [] \<and> list_all is_digit ds \<and> (hd ds \<noteq> CHR ''0'' \<or> ds = ''0'')
      \<and> decimal_value ds = n)"

section \<open>The availability prober and the URL issuer\<close>

record S3Availability =
  available :: bool
  s3Key :: "string option"
  s3Size :: "int option"

text \<open>What sending a \<^verbatim>\<open>HeadObjectCommand\<close> does: it throws, or answers with a content length
  that may be missing.\<close>

datatype HeadResult = HeadThrows | HeadOK "int option"

text \<open>
  \<open>send\<close> is the object store's answer for a key and \<open>rnd\<close> the value of
  \<^verbatim>\<open>Math.floor(Math.random() * 10000000)\<close>. The remainder \<^verbatim>\<open>%\<close> of JavaScript
  truncates towards zero, as \<open>smod\<close> does.
\<close>

definition checkS3Availability ::
  "Env \<Rightarrow> (string \<Rightarrow> HeadResult) \<Rightarrow> int \<Rightarrow> int \<Rightarrow> S3Availability" where
  "checkS3Availability env send rnd fileId =
     (let key = sanitizeS3Key (Finite (of_int fileId)) in
      if S3_BUCKET_NAME env = [] then
        (let avail = (fileId smod 7 = 0) in
         \<lparr>available = avail,
          s3Key = (if avail then Some key else None),
          s3Size = (if avail then Some (rnd + 1000) else None)\<rparr>)
      else
        (case send key of
           HeadOK contentLength \<Rightarrow> \<lparr>available = True, s3Key = Some key, s3Size = contentLength\<rparr>
         | HeadThrows \<Rightarrow> \<lparr>available = False, s3Key = None, s3Size = None\<rparr>))"

text \<open>\<open>sign\<close> is \<^verbatim>\<open>getSignedUrl\<close> for a key, \<open>None\<close> when it throws.\<close>

definition generatePresignedUrl ::
  "Env \<Rightarrow> string \<Rightarrow> (string \<Rightarrow> string option) \<Rightarrow> string \<Rightarrow> string option" where
  "generatePresignedUrl env uuid sign key =
     (if S3_BUCKET_NAME env = [] then
        Some (''https://storage.example.com/'' @ key @ ''?token='' @ uuid)
      else sign key)"

section \<open>The worker body\<close>

text \<open>
  What one execution of \<^verbatim>\<open>processDownloadJob\<close> reads from outside the job store: the
  clock at each place that reads it, the firings of the progress interval before
  \<^verbatim>\<open>clearInterval\<close> (one time stamp for each; how many there are depends on the random
  delay and on the timers), the random size, the object store's and the signer's answers,
  and the random token. \<open>toFixed1\<close> prints \<^verbatim>\<open>(processingTimeMs / 1000).toFixed(1)\<close>,
  a floating-point rendering that is left open.
\<close>

record WorkerIO =
  startTime :: int
  processingCreatedAt :: timestamp
  processingUpdatedAt :: timestamp
  tickTimes :: "timestamp list"
  headObject :: "string \<Rightarrow> HeadResult"
  random :: int
  getSignedUrl :: "string \<Rightarrow> string option"
  randomUUID :: string
  finishTime :: int
  toFixed1 :: "int \<Rightarrow> string"
  terminalCreatedAt :: timestamp
  terminalUpdatedAt :: timestamp

definition processingResult :: "int \<Rightarrow> WorkerIO \<Rightarrow> JobResult" where
  "processingResult fileId io =
     \<lparr>file_id = fileId, status = Processing, progress = 0, downloadUrl = None,
      size_bytes = None, processingTimeMs = None, message = ''Processing download...'',
      createdAt = processingCreatedAt io, updatedAt = processingUpdatedAt io\<rparr>"

text \<open>The first statement of the body: the record is overwritten, whatever it held.\<close>

definition startJob :: "jobId \<Rightarrow> int \<Rightarrow> WorkerIO \<Rightarrow> World \<Rightarrow> World" where
  "startJob jobId fileId io w = setJobStatus jobId (processingResult fileId io) w"

text \<open>
  One firing of the interval callback: the counter \<open>progress\<close> of the enclosing execution
  goes up, the record is read, and it is written back with the new progress only if its
  status is \<^verbatim>\<open>processing\<close>. The read and the write are one step: with the in-memory map
  nothing runs between them, and on the single Redis connection the write is sent before
  any command that a later continuation of this execution sends. A write that another
  process makes between the two is not represented.
\<close>

definition progressTick :: "jobId \<Rightarrow> timestamp \<Rightarrow> int \<times> World \<Rightarrow> int \<times> World" where
  "progressTick jobId now pw =
     (let progress' = min (fst pw + 10) 90; w = snd pw in
      (progress',
       (case getJobStatus w jobId of
          Some currentStatus \<Rightarrow>
            if status currentStatus = Processing
            then setJobStatus jobId (currentStatus\<lparr>progress := progress', updatedAt := now\<rparr>) w
            else w
        | None \<Rightarrow> w)))"

primrec progressInterval :: "jobId \<Rightarrow> timestamp list \<Rightarrow> int \<times> World \<Rightarrow> int \<times> World" where
  "progressInterval jobId [] pw = pw"
| "progressInterval jobId (now # ts) pw = progressInterval jobId ts (progressTick jobId now pw)"

definition storedCreatedAt :: "jobId \<Rightarrow> WorkerIO \<Rightarrow> World \<Rightarrow> timestamp" where
  "storedCreatedAt jobId io w =
     (case getJobStatus w jobId of Some r \<Rightarrow> createdAt r | None \<Rightarrow> terminalCreatedAt io)"

definition completedResult ::
  "jobId \<Rightarrow> int \<Rightarrow> WorkerIO \<Rightarrow> string option \<Rightarrow> int option \<Rightarrow> World \<Rightarrow> JobResult" where
  "completedResult jobId fileId io url sz w =
     (let ms = finishTime io - startTime io in
      \<lparr>file_id = fileId, status = Completed, progress = 100, downloadUrl = url,
       size_bytes = sz, processingTimeMs = Some ms,
       message = ''Download ready after '' @ toFixed1 io ms @ '' seconds'',
       createdAt = storedCreatedAt jobId io w, updatedAt = terminalUpdatedAt io\<rparr>)"

definition failedResult :: "jobId \<Rightarrow> int \<Rightarrow> WorkerIO \<Rightarrow> World \<Rightarrow> JobResult" where
  "failedResult jobId fileId io w =
     (let ms = finishTime io - startTime io in
      \<lparr>file_id = fileId, status = Failed, progress = 100, downloadUrl = None,
       size_bytes = None, processingTimeMs = Some ms,
       message = ''File not found after '' @ toFixed1 io ms @ '' seconds'',
       createdAt = storedCreatedAt jobId io w, updatedAt = terminalUpdatedAt io\<rparr>)"

text \<open>
  The body after the delay: the probe, then one of the two terminal writes. The test
  \<^verbatim>\<open>s3Result.available && s3Result.s3Key\<close> asks for a key that is neither null nor empty.
\<close>

definition finishJob :: "Env \<Rightarrow> jobId \<Rightarrow> int \<Rightarrow> WorkerIO \<Rightarrow> World \<Rightarrow> World" where
  "finishJob env jobId fileId io w =
     (let s3Result = checkS3Availability env (headObject io) (random io) fileId in
      case s3Key s3Result of
        Some key \<Rightarrow>
          if available s3Result \<and> key \<noteq> [] then
            (let url = generatePresignedUrl env (randomUUID io) (getSignedUrl io) key
             in setJobStatus jobId (completedResult jobId fileId io url (s3Size s3Result) w) w)
          else setJobStatus jobId (failedResult jobId fileId io w) w
      | None \<Rightarrow> setJobStatus jobId (failedResult jobId fileId io w) w)"

text \<open>The body from its first \<^verbatim>\<open>await\<close> on, and the whole body.\<close>

definition awaitJob :: "Env \<Rightarrow> jobId \<Rightarrow> int \<Rightarrow> WorkerIO \<Rightarrow> World \<Rightarrow> World" where
  "awaitJob env jobId fileId io w =
     finishJob env jobId fileId io (snd (progressInterval jobId (tickTimes io) (0, w)))"

definition processDownloadJob :: "Env \<Rightarrow> jobId \<Rightarrow> int \<Rightarrow> WorkerIO \<Rightarrow> World \<Rightarrow> World" where
  "processDownloadJob env jobId fileId io w =
     awaitJob env jobId fileId io (startJob jobId fileId io w)"

section \<open>The submission route\<close>

definition validFileId :: "int \<Rightarrow> bool" where
  "validFileId x = (10000 \<le> x \<and> x \<le> 100000000)"

definition DownloadInitiateRequestSchema :: "int list \<Rightarrow> bool" where
  "DownloadInitiateRequestSchema file_ids =
     (list_all validFileId file_ids \<and> 1 \<le> length file_ids \<and> length file_ids \<le> 1000)"

record DownloadInitiateResponse =
  responseJobId :: jobId
  responseStatus :: JobStatus
  totalFileIds :: nat

definition queuedResult :: "int \<Rightarrow> timestamp \<Rightarrow> JobResult" where
  "queuedResult fileId now =
     \<lparr>file_id = fileId, status = Queued, progress = 0, downloadUrl = None,
      size_bytes = None, processingTimeMs = None, message = ''Job queued for processing'',
      createdAt = now, updatedAt = now\<rparr>"

text \<open>
  \<^verbatim>\<open>POST /v1/download/initiate\<close>: the body is checked against the schema before the
  handler runs, and a body that fails is answered with status 400. \<open>uuid\<close> is the value of
  \<^verbatim>\<open>crypto.randomUUID()\<close> and \<open>now\<close> the clock. Without Redis the handler calls
  \<^verbatim>\<open>processDownloadJob\<close> and does not await it: the call runs to its first
  \<^verbatim>\<open>await\<close>, that is through its first write, before the handler returns, and \<open>io\<close>
  is what that execution reads.
\<close>

definition downloadInitiateRoute ::
  "Env \<Rightarrow> jobId \<Rightarrow> timestamp \<Rightarrow> WorkerIO \<Rightarrow> int list \<Rightarrow> World \<Rightarrow>
     (ErrorResponse + DownloadInitiateResponse) \<times> World" where
  "downloadInitiateRoute env uuid now io file_ids w =
     (if \<not> DownloadInitiateRequestSchema file_ids then (Inl BadRequest, w)
      else
        (case file_ids of
           [] \<Rightarrow> (Inl BadRequest, w)
         | fileId # _ \<Rightarrow>
             (let w1 = setJobStatus uuid (queuedResult fileId now) w;
                  w2 = (if redisConnection env
                        then w1\<lparr>queue := queue w1 @ [(uuid, fileId)]\<rparr>
                        else (startJob uuid fileId io w1)
                               \<lparr>background := background w1 @ [(uuid, fileId)]\<rparr>)
              in (Inr \<lparr>responseJobId = uuid, responseStatus = Queued,
                       totalFileIds = length file_ids\<rparr>, w2))))"

text \<open>
  The processor of the BullMQ worker: it is handed a work item and runs the body on it.
\<close>

definition downloadWorker :: "Env \<Rightarrow> WorkerIO \<Rightarrow> jobId \<times> int \<Rightarrow> World \<Rightarrow> World" where
  "downloadWorker env io job w = (case job of (jobId, fileId) \<Rightarrow> processDownloadJob env jobId fileId io w)"

text \<open>
  A submission followed by one execution of the work item it left behind, the newest of
  the pending ones: with Redis the queue hands the item to the worker, without Redis the
  detached call goes on from its first \<^verbatim>\<open>await\<close>. A rejected submission leaves no
  work item. Older items stay pending; they belong to other jobs.
\<close>

definition lifecycle ::
  "Env \<Rightarrow> jobId \<Rightarrow> timestamp \<Rightarrow> WorkerIO \<Rightarrow> int list \<Rightarrow> World \<Rightarrow> World" where
  "lifecycle env uuid now io file_ids w =
     (case downloadInitiateRoute env uuid now io file_ids w of
        (Inl err, w') \<Rightarrow> w'
      | (Inr response, w') \<Rightarrow>
          if redisConnection env then
            (case rev (queue w') of
               [] \<Rightarrow> w'
             | job # older \<Rightarrow> downloadWorker env io job (w'\<lparr>queue := rev older\<rparr>))
          else
            (case rev (background w') of
               [] \<Rightarrow> w'
             | (jobId, fileId) # older \<Rightarrow>
                 awaitJob env jobId fileId io (w'\<lparr>background := rev older\<rparr>)))"

section \<open>Interleaved executions\<close>

text \<open>
  The steps that change the job store, for any job and in any order: a submission, the
  first write of an execution of the worker body, a firing of its progress interval (with
  the value its counter has), its terminal write, and the expiry of a record. Every
  schedule of submissions and of worker executions, redelivered ones included, is a list
  of these steps.
\<close>

datatype event =
    Initiate jobId timestamp WorkerIO "int list"
  | WorkerStart jobId int WorkerIO
  | WorkerTick jobId int timestamp
  | WorkerFinish jobId int WorkerIO
  | Expire jobId

fun exec :: "Env \<Rightarrow> event \<Rightarrow> World \<Rightarrow> World" where
  "exec env (Initiate uuid now io file_ids) w =
     snd (downloadInitiateRoute env uuid now io file_ids w)"
| "exec env (WorkerStart jobId fileId io) w = startJob jobId fileId io w"
| "exec env (WorkerTick jobId counter now) w = snd (progressTick jobId now (counter, w))"
| "exec env (WorkerFinish jobId fileId io) w = finishJob env jobId fileId io w"
| "exec env (Expire jobId) w = expire jobId w"

definition run :: "Env \<Rightarrow> event list \<Rightarrow> World \<Rightarrow> World" where
  "run env evs w = fold (exec env) evs w"

section \<open>Notions used in the statements\<close>

text \<open>The writes that happened between a state and a later one.\<close>

definition newWrites :: "World \<Rightarrow> World \<Rightarrow> (jobId \<times> JobResult) list" where
  "newWrites w w' = drop (length (writes w)) (writes w')"

text \<open>The order of the statuses: queued, then processing, then one of the two terminal ones.\<close>

fun statusRank :: "JobStatus \<Rightarrow> nat" where
  "statusRank Queued = 0"
| "statusRank Processing = 1"
| "statusRank Completed = 2"
| "statusRank Failed = 2"

definition terminal :: "JobStatus \<Rightarrow> bool" where
  "terminal s = (s = Completed \<or> s = Failed)"

text \<open>
  The progress values of \<open>n\<close> successive ticks after the value \<open>p\<close>: each is the previous
  one plus 10, capped at 90.
\<close>

fun tickValues :: "int \<Rightarrow> nat \<Rightarrow> int list" where
  "tickValues p 0 = []"
| "tickValues p (Suc n) = min (p + 10) 90 # tickValues (min (p + 10) 90) n"

text \<open>The records that successive ticks write when they find \<open>cur\<close> stored with status
  \<^verbatim>\<open>processing\<close>.\<close>

fun tickResults :: "JobResult \<Rightarrow> int \<Rightarrow> timestamp list \<Rightarrow> JobResult list" where
  "tickResults cur p [] = []"
| "tickResults cur p (now # ts) =
     (let r = cur\<lparr>progress := min (p + 10) 90, updatedAt := now\<rparr>
      in r # tickResults r (min (p + 10) 90) ts)"

text \<open>
  URL issuance succeeds at a step: the step is no terminal write, or the issuer returns a
  URL for the key of the file (it always does when no bucket is configured).
\<close>

fun issuanceSucceeds :: "Env \<Rightarrow> event \<Rightarrow> bool" where
  "issuanceSucceeds env (WorkerFinish jobId fileId io) =
     (generatePresignedUrl env (randomUUID io) (getSignedUrl io)
        (sanitizeS3Key (Finite (of_int fileId))) \<noteq> None)"
| "issuanceSucceeds env ev = True"

text \<open>
  The rule on the download URL for one record: a URL only on a completed record and, in the
  strict reading, a URL on every completed record. The invariant says that every write so
  far obeys the rule and that every stored record is one that was written.
\<close>

definition urlRule :: "bool \<Rightarrow> JobResult \<Rightarrow> bool" where
  "urlRule strict r =
     ((downloadUrl r \<noteq> None \<longrightarrow> status r = Completed)
      \<and> (strict \<longrightarrow> status r = Completed \<longrightarrow> downloadUrl r \<noteq> None))"

definition urlInvariant :: "bool \<Rightarrow> World \<Rightarrow> bool" where
  "urlInvariant strict w =
     ((\<forall>(j, r) \<in> set (writes w). urlRule strict r)
      \<and> (\<forall>j r. getJobStatus w j = Some r \<longrightarrow> (j, r) \<in> set (writes w)))"

text \<open>
  The numbers whose printed form \<open>String_number\<close> describes, and the strings that hold
  neither a slash nor a dot.
\<close>

definition printable :: "rat number \<Rightarrow> bool" where
  "printable x = (case x of Finite q \<Rightarrow> \<bar>q\<bar> < 2 ^ 53 | _ \<Rightarrow> True)"

definition separator_free :: "string \<Rightarrow> bool" where
  "separator_free body = (CHR ''/'' \<notin> set body \<and> CHR ''.'' \<notin> set body)"

section \<open>Sample inputs\<close>

definition mockEnv :: Env where
  "mockEnv = \<lparr>S3_BUCKET_NAME = [], redisConnection = False\<rparr>"

definition redisMockEnv :: Env where
  "redisMockEnv = \<lparr>S3_BUCKET_NAME = [], redisConnection = True\<rparr>"

definition bucketEnv :: Env where
  "bucketEnv = \<lparr>S3_BUCKET_NAME = ''downloads-bucket'', redisConnection = True\<rparr>"

text \<open>An execution that starts five seconds after the submission below, sees two ticks and
  an object store that has the file but a signer that throws.\<close>

definition sampleIO :: WorkerIO where
  "sampleIO =
     \<lparr>startTime = 1000, processingCreatedAt = ''2025-01-01T00:00:05.000Z'',
      processingUpdatedAt = ''2025-01-01T00:00:05.000Z'',
      tickTimes = [''2025-01-01T00:00:07.000Z'', ''2025-01-01T00:00:09.000Z''],
      headObject = (\<lambda>key. HeadOK (Some 2048)), random = 41,
      getSignedUrl = (\<lambda>key. None), randomUUID = ''token'',
      finishTime = 21000, toFixed1 = (\<lambda>ms. ''20.0''),
      terminalCreatedAt = ''2025-01-01T00:00:25.000Z'',
      terminalUpdatedAt = ''2025-01-01T00:00:25.000Z''\<rparr>"

definition sampleNow :: timestamp where
  "sampleNow = ''2025-01-01T00:00:00.000Z''"

definition sampleJobId :: jobId where
  "sampleJobId = ''550e8400-e29b-41d4-a716-446655440000''"

text \<open>
  The written form of a UUID, for the examples of the parameter check: 36 characters,
  hyphens at the positions 8, 13, 18 and 23 and hexadecimal digits elsewhere.
\<close>

definition is_hex :: "char \<Rightarrow> bool" where
  "is_hex c = (c \<in> set ''0123456789abcdefABCDEF'')"

definition uuidShape :: "string \<Rightarrow> bool" where
  "uuidShape s =
     (length s = 36
      \<and> list_all is_hex (take 8 s) \<and> s ! 8 = CHR ''-''
      \<and> list_all is_hex (take 4 (drop 9 s)) \<and> s ! 13 = CHR ''-''
      \<and> list_all is_hex (take 4 (drop 14 s)) \<and> s ! 18 = CHR ''-''
      \<and> list_all is_hex (take 4 (drop 19 s)) \<and> s ! 23 = CHR ''-''
      \<and> list_all is_hex (drop 24 s))"

section \<open>Facts about the operations\<close>

lemma setJobStatus_fields [simp]:
  "jobs (setJobStatus j r w) = (jobs w)(j \<mapsto> r)"
  "writes (setJobStatus j r w) = writes w @ [(j, r)]"
  "queue (setJobStatus j r w) = queue w"
  "background (setJobStatus j r w) = background w"
  by (simp_all add: setJobStatus_def)

lemma getJobStatus_setJobStatus [simp]:
  "getJobStatus (setJobStatus j r w) j' = (if j' = j then Some r else getJobStatus w j')"
  by (simp add: getJobStatus_def)

lemma tickResults_fields:
  "r \<in> set (tickResults cur p ts) \<Longrightarrow>
     status r = status cur \<and> createdAt r = createdAt cur \<and> downloadUrl r = downloadUrl cur
     \<and> file_id r = file_id cur \<and> size_bytes r = size_bytes cur"
  by (induction ts arbitrary: cur p) (auto simp: Let_def)

lemma tickResults_progress:
  "map progress (tickResults cur p ts) = tickValues p (length ts)"
  by (induction ts arbitrary: cur p) (simp_all add: Let_def)

lemma length_tickResults [simp]: "length (tickResults cur p ts) = length ts"
  by (induction ts arbitrary: cur p) (simp_all add: Let_def)

lemma last_tickResults_fields:
  "status (last (cur # tickResults cur p ts)) = status cur
   \<and> createdAt (last (cur # tickResults cur p ts)) = createdAt cur"
proof (cases "tickResults cur p ts = []")
  case True
  then show ?thesis by simp
next
  case False
  then have "last (cur # tickResults cur p ts) \<in> set (tickResults cur p ts)"
    by simp
  then show ?thesis using tickResults_fields by blast
qed

lemma progressInterval_processing:
  assumes "getJobStatus w j = Some cur" and "status cur = Processing"
  shows "writes (snd (progressInterval j ts (p, w))) = writes w @ map (Pair j) (tickResults cur p ts)
       \<and> getJobStatus (snd (progressInterval j ts (p, w))) j = Some (last (cur # tickResults cur p ts))
       \<and> queue (snd (progressInterval j ts (p, w))) = queue w
       \<and> background (snd (progressInterval j ts (p, w))) = background w"
  using assms
proof (induction ts arbitrary: p w cur)
  case Nil
  then show ?case by simp
next
  case (Cons now ts)
  define r where "r = cur\<lparr>progress := min (p + 10) 90, updatedAt := now\<rparr>"
  have step: "progressTick j now (p, w) = (min (p + 10) 90, setJobStatus j r w)"
    using Cons.prems by (simp add: progressTick_def Let_def r_def)
  have st: "getJobStatus (setJobStatus j r w) j = Some r" "status r = Processing"
    using Cons.prems by (simp_all add: r_def)
  show ?case
    using Cons.IH [OF st, of "min (p + 10) 90"]
    by (simp add: step Let_def r_def [symmetric])
qed

lemma tickValues_bounds:
  "p \<le> 90 \<Longrightarrow> x \<in> set (tickValues p n) \<Longrightarrow> p \<le> x \<and> x \<le> 90"
proof (induction n arbitrary: p)
  case 0
  then show ?case by simp
next
  case (Suc n)
  have q: "min (p + 10) 90 \<le> 90" "p \<le> min (p + 10) 90"
    using Suc.prems(1) by simp_all
  from Suc.prems(2) have "x = min (p + 10) 90 \<or> x \<in> set (tickValues (min (p + 10) 90) n)"
    by simp
  then show ?case
  proof
    assume "x = min (p + 10) 90"
    then show ?thesis using q by simp
  next
    assume "x \<in> set (tickValues (min (p + 10) 90) n)"
    then have "min (p + 10) 90 \<le> x \<and> x \<le> 90" using Suc.IH [OF q(1)] by simp
    then show ?thesis using q by linarith
  qed
qed

lemma sorted_tickValues: "p \<le> 90 \<Longrightarrow> sorted (tickValues p n)"
proof (induction n arbitrary: p)
  case 0
  then show ?case by simp
next
  case (Suc n)
  let ?q = "min (p + 10) 90"
  have q: "?q \<le> 90" by simp
  have "\<forall>y\<in>set (tickValues ?q n). ?q \<le> y"
    using tickValues_bounds [OF q] by blast
  moreover have "sorted (tickValues ?q n)"
    using Suc.IH [OF q] .
  ultimately show ?case by simp
qed

lemma cap_step:
  fixes p K :: int
  assumes "0 \<le> K"
  shows "min (min (p + 10) 90 + 10 * (K + 1)) 90 = min (p + 10 * (K + 2)) 90"
proof (cases "p + 10 \<le> 90")
  case True
  then have "min (p + 10) 90 = p + 10" by simp
  moreover have "p + 10 + 10 * (K + 1) = p + 10 * (K + 2)" by simp
  ultimately show ?thesis by simp
next
  case False
  then have "min (p + 10) 90 = 90" by simp
  moreover have "90 \<le> 90 + 10 * (K + 1)" using assms by simp
  moreover have "90 \<le> p + 10 * (K + 2)" using False assms by simp
  ultimately show ?thesis by simp
qed

lemma tickValues_nth:
  "k < n \<Longrightarrow> tickValues p n ! k = min (p + 10 * (int k + 1)) 90"
proof (induction n arbitrary: p k)
  case 0
  then show ?case by simp
next
  case (Suc n)
  show ?case
  proof (cases k)
    case 0
    then show ?thesis by simp
  next
    case (Suc k')
    then have "k' < n" using Suc.prems by simp
    then have "tickValues (min (p + 10) 90) n ! k' = min (min (p + 10) 90 + 10 * (int k' + 1)) 90"
      by (rule Suc.IH)
    also have "\<dots> = min (p + 10 * (int k' + 2)) 90"
      by (rule cap_step) simp
    finally show ?thesis using Suc by (simp add: add.commute)
  qed
qed

lemma sanitizeS3Key_nonempty [simp]: "sanitizeS3Key x \<noteq> []"
  by (simp add: sanitizeS3Key_def)

lemma checkS3Availability_key:
  "s3Key (checkS3Availability env send rnd f) = Some key \<Longrightarrow>
     key = sanitizeS3Key (Finite (of_int f)) \<and> available (checkS3Availability env send rnd f)"
  by (simp add: checkS3Availability_def Let_def split: if_splits HeadResult.splits)

lemma checkS3Availability_no_key:
  "s3Key (checkS3Availability env send rnd f) = None \<Longrightarrow>
     \<not> available (checkS3Availability env send rnd f)"
  by (simp add: checkS3Availability_def Let_def split: if_splits HeadResult.splits)

lemma finishJob_cases:
  "finishJob env j f io w =
     (if available (checkS3Availability env (headObject io) (random io) f)
      then setJobStatus j
             (completedResult j f io
                (generatePresignedUrl env (randomUUID io) (getSignedUrl io)
                   (sanitizeS3Key (Finite (of_int f))))
                (s3Size (checkS3Availability env (headObject io) (random io) f)) w) w
      else setJobStatus j (failedResult j f io w) w)"
proof (cases "s3Key (checkS3Availability env (headObject io) (random io) f)")
  case None
  then show ?thesis
    using checkS3Availability_no_key [OF None] by (simp add: finishJob_def)
next
  case (Some key)
  then show ?thesis
    using checkS3Availability_key [OF Some] by (simp add: finishJob_def)
qed

lemma completedResult_fields [simp]:
  "status (completedResult j f io url sz w) = Completed"
  "progress (completedResult j f io url sz w) = 100"
  "downloadUrl (completedResult j f io url sz w) = url"
  "size_bytes (completedResult j f io url sz w) = sz"
  "createdAt (completedResult j f io url sz w) = storedCreatedAt j io w"
  "file_id (completedResult j f io url sz w) = f"
  by (simp_all add: completedResult_def Let_def)

lemma failedResult_fields [simp]:
  "status (failedResult j f io w) = Failed"
  "progress (failedResult j f io w) = 100"
  "downloadUrl (failedResult j f io w) = None"
  "size_bytes (failedResult j f io w) = None"
  "createdAt (failedResult j f io w) = storedCreatedAt j io w"
  "file_id (failedResult j f io w) = f"
  by (simp_all add: failedResult_def Let_def)

lemma finishJob_write:
  "\<exists>r. finishJob env j f io w = setJobStatus j r w \<and> progress r = 100
       \<and> terminal (status r) \<and> createdAt r = storedCreatedAt j io w \<and> file_id r = f
       \<and> (downloadUrl r \<noteq> None \<longrightarrow> status r = Completed)
       \<and> (status r = Completed \<longrightarrow> downloadUrl r =
             generatePresignedUrl env (randomUUID io) (getSignedUrl io)
               (sanitizeS3Key (Finite (of_int f))))"
proof (cases "available (checkS3Availability env (headObject io) (random io) f)")
  case True
  show ?thesis
    by (rule exI [of _ "completedResult j f io
          (generatePresignedUrl env (randomUUID io) (getSignedUrl io)
             (sanitizeS3Key (Finite (of_int f))))
          (s3Size (checkS3Availability env (headObject io) (random io) f)) w"])
       (simp add: finishJob_cases terminal_def True)
next
  case False
  show ?thesis
    by (rule exI [of _ "failedResult j f io w"]) (simp add: finishJob_cases terminal_def False)
qed

lemma restore_pending [simp]:
  "(setJobStatus j r w)\<lparr>queue := queue w\<rparr> = setJobStatus j r w"
  "(startJob j f io (setJobStatus j' r w))\<lparr>background := background w\<rparr> =
     startJob j f io (setJobStatus j' r w)"
  by (simp_all add: setJobStatus_def startJob_def)

lemma lifecycle_valid:
  assumes "DownloadInitiateRequestSchema (fileId # rest)"
  shows "lifecycle env uuid now io (fileId # rest) w =
           awaitJob env uuid fileId io
             (startJob uuid fileId io (setJobStatus uuid (queuedResult fileId now) w))"
proof (cases "redisConnection env")
  case True
  then show ?thesis using assms
    by (simp add: lifecycle_def downloadInitiateRoute_def Let_def downloadWorker_def
      processDownloadJob_def)
next
  case False
  then show ?thesis using assms
    by (simp add: lifecycle_def downloadInitiateRoute_def Let_def)
qed

lemma smod_7_dvd: "((k::int) smod 7 = 0) = (7 dvd k)"
  by (auto simp: signed_modulo_int_def sgn_if dvd_eq_mod_eq_0 zmod_zminus1_eq_if split: if_splits)

lemma lifecycle_before_finish:
  assumes "DownloadInitiateRequestSchema (fileId # rest)"
  shows "\<exists>w2. lifecycle env uuid now io (fileId # rest) w = finishJob env uuid fileId io w2
        \<and> writes w2 = writes w @ (uuid, queuedResult fileId now) # (uuid, processingResult fileId io)
              # map (Pair uuid) (tickResults (processingResult fileId io) 0 (tickTimes io))
        \<and> storedCreatedAt uuid io w2 = processingCreatedAt io"
proof -
  let ?w1 = "startJob uuid fileId io (setJobStatus uuid (queuedResult fileId now) w)"
  let ?w2 = "snd (progressInterval uuid (tickTimes io) (0, ?w1))"
  let ?cur = "processingResult fileId io"
  have cur: "getJobStatus ?w1 uuid = Some ?cur" "status ?cur = Processing"
    by (simp_all add: startJob_def processingResult_def)
  note pi = progressInterval_processing [OF cur, of "tickTimes io" 0]
  have "lifecycle env uuid now io (fileId # rest) w = finishJob env uuid fileId io ?w2"
    using lifecycle_valid [OF assms] by (simp add: awaitJob_def)
  moreover have "writes ?w2 = writes w @ (uuid, queuedResult fileId now) # (uuid, ?cur)
              # map (Pair uuid) (tickResults ?cur 0 (tickTimes io))"
    using pi by (simp add: startJob_def)
  moreover have "storedCreatedAt uuid io ?w2 = processingCreatedAt io"
    using pi last_tickResults_fields [of ?cur 0 "tickTimes io"]
    by (simp add: storedCreatedAt_def processingResult_def)
  ultimately show ?thesis by blast
qed

lemma lifecycle_writes:
  assumes "DownloadInitiateRequestSchema (fileId # rest)"
  shows "\<exists>r. newWrites w (lifecycle env uuid now io (fileId # rest) w) =
            (uuid, queuedResult fileId now) # (uuid, processingResult fileId io)
              # map (Pair uuid) (tickResults (processingResult fileId io) 0 (tickTimes io))
              @ [(uuid, r)]
        \<and> getJobStatus (lifecycle env uuid now io (fileId # rest) w) uuid = Some r
        \<and> progress r = 100 \<and> terminal (status r) \<and> createdAt r = processingCreatedAt io"
proof -
  obtain w2 where w2: "lifecycle env uuid now io (fileId # rest) w = finishJob env uuid fileId io w2"
     "writes w2 = writes w @ (uuid, queuedResult fileId now) # (uuid, processingResult fileId io)
              # map (Pair uuid) (tickResults (processingResult fileId io) 0 (tickTimes io))"
     "storedCreatedAt uuid io w2 = processingCreatedAt io"
    using lifecycle_before_finish [OF assms] by blast
  obtain r where r: "finishJob env uuid fileId io w2 = setJobStatus uuid r w2"
      "progress r = 100" "terminal (status r)" "createdAt r = storedCreatedAt uuid io w2"
    using finishJob_write [of env uuid fileId io w2] by blast
  show ?thesis
    by (rule exI [of _ r]) (simp add: w2 r newWrites_def)
qed

lemma tick_not_processing:
  "(case getJobStatus w jobId of None \<Rightarrow> True | Some r \<Rightarrow> status r \<noteq> Processing) \<Longrightarrow>
   progressTick jobId now (p, w) = (min (p + 10) 90, w)"
  by (simp add: progressTick_def Let_def split: option.splits)

lemma interval_not_processing:
  "(case getJobStatus w jobId of None \<Rightarrow> True | Some r \<Rightarrow> status r \<noteq> Processing) \<Longrightarrow>
   snd (progressInterval jobId ts (p, w)) = w"
proof (induction ts arbitrary: p)
  case Nil
  then show ?case by simp
next
  case (Cons now ts)
  then show ?case by (simp add: tick_not_processing)
qed

section \<open>The claims\<close>

text \<open>
  C3. A firing of the progress callback that finds a completed or failed record, or no
  record, writes nothing: the state after it is the state before it, for one firing and
  for any number of firings in a row.
\<close>

theorem tick_skips_terminal_record:
  assumes "getJobStatus w jobId = None \<or>
           (\<exists>r. getJobStatus w jobId = Some r \<and> (status r = Completed \<or> status r = Failed))"
  shows "snd (progressTick jobId now (p, w)) = w
         \<and> exec env (WorkerTick jobId p now) w = w
         \<and> snd (progressInterval jobId ts (p, w)) = w"
proof -
  have h: "case getJobStatus w jobId of None \<Rightarrow> True | Some r \<Rightarrow> status r \<noteq> Processing"
    using assms by (auto split: option.splits)
  show ?thesis
    using tick_not_processing [OF h] interval_not_processing [OF h] by simp
qed

theorem tick_skips_terminal_record_witness:
  "snd (progressTick sampleJobId ''2025-01-01T00:00:30.000Z''
          (20, finishJob mockEnv sampleJobId 70001 sampleIO emptyWorld))
     = finishJob mockEnv sampleJobId 70001 sampleIO emptyWorld
   \<and> snd (progressInterval sampleJobId (tickTimes sampleIO) (0, emptyWorld)) = emptyWorld"
proof -
  have failed: "finishJob mockEnv sampleJobId 70001 sampleIO emptyWorld =
      setJobStatus sampleJobId (failedResult sampleJobId 70001 sampleIO emptyWorld) emptyWorld"
    by (simp add: finishJob_cases checkS3Availability_def mockEnv_def signed_modulo_int_def)
  have h1: "getJobStatus (finishJob mockEnv sampleJobId 70001 sampleIO emptyWorld) sampleJobId = None \<or>
      (\<exists>r. getJobStatus (finishJob mockEnv sampleJobId 70001 sampleIO emptyWorld) sampleJobId = Some r
          \<and> (status r = Completed \<or> status r = Failed))"
    by (simp add: failed)
  have h2: "getJobStatus emptyWorld sampleJobId = None \<or>
      (\<exists>r. getJobStatus emptyWorld sampleJobId = Some r \<and> (status r = Completed \<or> status r = Failed))"
    by (simp add: getJobStatus_def emptyWorld_def)
  show ?thesis
    using tick_skips_terminal_record [OF h1, where now = "''2025-01-01T00:00:30.000Z''" and p = 20]
      tick_skips_terminal_record [OF h2, where p = 0 and ts = "tickTimes sampleIO"]
    by simp
qed

text \<open>
  C9. For a job identifier that passes the route's parameter check, the status read
  answers with the not-found body when the store has no record for the identifier, which
  is also the case once the record has expired, and with the identifier and the stored
  record otherwise. A parameter that fails the check is answered with the client error.
  In every case the read leaves the state as it was.
\<close>

theorem status_read:
  "(isUuid jobId \<longrightarrow>
      (case getJobStatus w jobId of
         None \<Rightarrow> fst (jobStatusRoute isUuid jobId w) =
                   Inl (NotFound (''Job '' @ jobId @ '' not found''))
       | Some r \<Rightarrow> fst (jobStatusRoute isUuid jobId w) = Inr (jobId, r))
      \<and> fst (jobStatusRoute isUuid jobId (expire jobId w)) =
           Inl (NotFound (''Job '' @ jobId @ '' not found'')))
   \<and> (\<not> isUuid jobId \<longrightarrow> fst (jobStatusRoute isUuid jobId w) = Inl BadRequest)
   \<and> snd (jobStatusRoute isUuid jobId w) = w"
  by (simp add: jobStatusRoute_def getJobStatus_def expire_def split: option.splits)

theorem status_read_witness:
  "jobStatusRoute uuidShape sampleJobId emptyWorld =
     (Inl (NotFound (''Job '' @ sampleJobId @ '' not found'')), emptyWorld)
   \<and> jobStatusRoute uuidShape sampleJobId
        (setJobStatus sampleJobId (queuedResult 70000 sampleNow) emptyWorld) =
       (Inr (sampleJobId, queuedResult 70000 sampleNow),
        setJobStatus sampleJobId (queuedResult 70000 sampleNow) emptyWorld)
   \<and> jobStatusRoute uuidShape ''a'' emptyWorld = (Inl BadRequest, emptyWorld)"
proof -
  have u: "uuidShape sampleJobId"
    by (simp add: uuidShape_def sampleJobId_def is_hex_def)
  have n: "\<not> uuidShape ''a''"
    by (simp add: uuidShape_def)
  have e: "getJobStatus emptyWorld sampleJobId = None"
    by (simp add: getJobStatus_def emptyWorld_def)
  show ?thesis
    using status_read [where isUuid = uuidShape and w = emptyWorld and jobId = sampleJobId]
      status_read [where isUuid = uuidShape and jobId = sampleJobId
        and w = "setJobStatus sampleJobId (queuedResult 70000 sampleNow) emptyWorld"]
      status_read [where isUuid = uuidShape and w = emptyWorld and jobId = "''a''"]
      u n e
    by (simp add: prod_eq_iff)
qed

text \<open>
  C8. A submission with a file identifier below 10000 or above 100000000 is answered with
  the client error and changes nothing: no record is written and no work item is queued or
  started.
\<close>

theorem out_of_range_rejected:
  assumes "x \<in> set file_ids" and "x < 10000 \<or> 100000000 < x"
  shows "downloadInitiateRoute env uuid now io file_ids w = (Inl BadRequest, w)"
proof -
  have "\<not> validFileId x" using assms(2) by (auto simp: validFileId_def)
  then have "\<not> list_all validFileId file_ids"
    using assms(1) by (auto simp: list_all_iff)
  then show ?thesis
    by (simp add: downloadInitiateRoute_def DownloadInitiateRequestSchema_def)
qed

theorem out_of_range_rejected_witness:
  "downloadInitiateRoute mockEnv sampleJobId sampleNow sampleIO [70000, 9999] emptyWorld
     = (Inl BadRequest, emptyWorld)"
proof -
  have h1: "(9999::int) \<in> set [70000, 9999]" by simp
  have h2: "(9999::int) < 10000 \<or> 100000000 < (9999::int)" by simp
  show ?thesis using out_of_range_rejected [OF h1 h2] by simp
qed

text \<open>
  C4. A batch that passes the schema (one to a thousand identifiers, each in range) is
  answered with the new job identifier, the status queued and the size of the batch. The
  handler writes one record, the queued one, with progress 0, no URL and both time stamps
  equal to the clock; it leaves one work item, for the first identifier of the batch, in
  the queue (with Redis) or as a detached call (without). No terminal write has happened
  when it returns: with Redis no write of the worker at all, without Redis the first write
  of the detached call, which stores the status processing.
\<close>

theorem submit_valid_batch:
  assumes "DownloadInitiateRequestSchema (fileId # rest)"
  shows "fst (downloadInitiateRoute env uuid now io (fileId # rest) w) =
           Inr \<lparr>responseJobId = uuid, responseStatus = Queued, totalFileIds = Suc (length rest)\<rparr>
     \<and> newWrites w (snd (downloadInitiateRoute env uuid now io (fileId # rest) w)) =
           (uuid, queuedResult fileId now)
             # (if redisConnection env then [] else [(uuid, processingResult fileId io)])
     \<and> queue (snd (downloadInitiateRoute env uuid now io (fileId # rest) w)) =
           queue w @ (if redisConnection env then [(uuid, fileId)] else [])
     \<and> background (snd (downloadInitiateRoute env uuid now io (fileId # rest) w)) =
           background w @ (if redisConnection env then [] else [(uuid, fileId)])
     \<and> queuedResult fileId now =
           \<lparr>file_id = fileId, status = Queued, progress = 0, downloadUrl = None,
            size_bytes = None, processingTimeMs = None, message = ''Job queued for processing'',
            createdAt = now, updatedAt = now\<rparr>
     \<and> status (processingResult fileId io) = Processing"
  using assms
  by (simp add: downloadInitiateRoute_def Let_def startJob_def newWrites_def
      queuedResult_def processingResult_def)

theorem submit_valid_batch_witness:
  "fst (downloadInitiateRoute redisMockEnv sampleJobId sampleNow sampleIO [70000, 70001] emptyWorld) =
      Inr \<lparr>responseJobId = sampleJobId, responseStatus = Queued, totalFileIds = 2\<rparr>
   \<and> queue (snd (downloadInitiateRoute redisMockEnv sampleJobId sampleNow sampleIO [70000, 70001]
        emptyWorld)) = [(sampleJobId, 70000)]
   \<and> writes (snd (downloadInitiateRoute redisMockEnv sampleJobId sampleNow sampleIO [70000, 70001]
        emptyWorld)) = [(sampleJobId, queuedResult 70000 sampleNow)]"
proof -
  have h: "DownloadInitiateRequestSchema [70000, 70001]"
    by (simp add: DownloadInitiateRequestSchema_def validFileId_def)
  show ?thesis
    using submit_valid_batch [OF h, where env = redisMockEnv and uuid = sampleJobId
        and now = sampleNow and io = sampleIO and w = emptyWorld]
    by (simp add: newWrites_def redisMockEnv_def emptyWorld_def)
qed

lemma sorted_progress_list:
  "sorted (0 # 0 # tickValues 0 n @ [100::int])"
proof -
  have b: "\<forall>x\<in>set (tickValues 0 n). 0 \<le> x \<and> x \<le> 90"
    using tickValues_bounds [of 0 _ n] by simp
  have s: "sorted (tickValues 0 n)" by (rule sorted_tickValues) simp
  have "sorted (tickValues 0 n @ [100])"
    using s b by (fastforce simp: sorted_append)
  then show ?thesis using b by fastforce
qed

lemmas run_sample =
  lifecycle_valid awaitJob_def startJob_def progressTick_def finishJob_cases
  checkS3Availability_def generatePresignedUrl_def sanitizeS3Key_def String_nat.simps digit_def
  signed_modulo_int_def Let_def DownloadInitiateRequestSchema_def validFileId_def
  completedResult_def failedResult_def processingResult_def queuedResult_def storedCreatedAt_def
  sampleIO_def sampleJobId_def sampleNow_def mockEnv_def redisMockEnv_def bucketEnv_def
  emptyWorld_def getJobStatus_def

text \<open>
  C5, as stated, fails: an execution of the worker body that is delivered again after the
  terminal write stores progress 0 over the record with progress 100, and the job gets a
  second terminal write.
\<close>

theorem redelivery_resets_progress:
  "map (progress \<circ> snd)
     (writes (downloadWorker redisMockEnv sampleIO (sampleJobId, 70000)
        (lifecycle redisMockEnv sampleJobId sampleNow sampleIO [70000] emptyWorld))) =
   [0, 0, 10, 20, 100, 0, 10, 20, 100]"
  by (simp add: downloadWorker_def processDownloadJob_def run_sample)

text \<open>
  C5, amended. Along a submission and one execution of its work item, the progress values
  written for the job are 0 (the queued record), 0 (the processing record), then for each
  tick the previous tick value plus 10 capped at 90 (the k-th tick writes the smaller of
  10 k and 90), then 100 (the one terminal record); this sequence never decreases, and all
  these writes are writes of the job's own record. The first write of the worker body is
  not guarded: it stores progress 0 whatever the record held, also when the execution is a
  redelivery that starts after the terminal write.
\<close>

theorem progress_never_decreases:
  assumes "DownloadInitiateRequestSchema file_ids"
  shows "map (progress \<circ> snd) (newWrites w (lifecycle env uuid now io file_ids w)) =
           0 # 0 # tickValues 0 (length (tickTimes io)) @ [100]
       \<and> sorted (map (progress \<circ> snd) (newWrites w (lifecycle env uuid now io file_ids w)))
       \<and> (\<forall>k < length (tickTimes io).
             tickValues 0 (length (tickTimes io)) ! k = min (10 * (int k + 1)) 90)
       \<and> list_all (\<lambda>(j, r). j = uuid) (newWrites w (lifecycle env uuid now io file_ids w))
       \<and> map_option progress (getJobStatus (startJob j f io' w') j) = Some 0"
proof -
  obtain fileId rest where f: "file_ids = fileId # rest"
    using assms by (cases file_ids) (simp_all add: DownloadInitiateRequestSchema_def)
  obtain r where r: "newWrites w (lifecycle env uuid now io (fileId # rest) w) =
            (uuid, queuedResult fileId now) # (uuid, processingResult fileId io)
              # map (Pair uuid) (tickResults (processingResult fileId io) 0 (tickTimes io))
              @ [(uuid, r)]" "progress r = 100"
    using lifecycle_writes [OF assms [unfolded f]] by blast
  have m: "map (progress \<circ> snd) (newWrites w (lifecycle env uuid now io file_ids w)) =
           0 # 0 # tickValues 0 (length (tickTimes io)) @ [100]"
    by (simp add: f r o_def tickResults_progress queuedResult_def processingResult_def)
  have n: "\<forall>k < length (tickTimes io).
             tickValues 0 (length (tickTimes io)) ! k = min (10 * (int k + 1)) 90"
    using tickValues_nth [of _ "length (tickTimes io)" 0] by simp
  have a: "list_all (\<lambda>(j, r). j = uuid) (newWrites w (lifecycle env uuid now io file_ids w))"
    by (simp add: f r list_all_iff)
  have z: "map_option progress (getJobStatus (startJob j f io' w') j) = Some 0"
    by (simp add: startJob_def processingResult_def)
  show ?thesis
    using m n a z sorted_progress_list [of "length (tickTimes io)"] by simp
qed

theorem progress_never_decreases_witness:
  "map (progress \<circ> snd) (writes (lifecycle redisMockEnv sampleJobId sampleNow sampleIO [70000] emptyWorld))
     = [0, 0, 10, 20, 100]"
proof -
  have h: "DownloadInitiateRequestSchema [70000]"
    by (simp add: DownloadInitiateRequestSchema_def validFileId_def)
  have e: "newWrites emptyWorld w = writes w" for w
    by (simp add: newWrites_def emptyWorld_def)
  have t: "tickValues 0 (length (tickTimes sampleIO)) = [10, 20]"
    by (simp add: sampleIO_def numeral_2_eq_2)
  show ?thesis
    using progress_never_decreases [OF h, where w = emptyWorld and env = redisMockEnv
        and uuid = sampleJobId and now = sampleNow and io = sampleIO]
    by (simp add: e t)
qed

lemma progressTick_status:
  "map_option status (getJobStatus (snd (progressTick j t (p, w))) j') =
     map_option status (getJobStatus w j')"
  by (simp add: progressTick_def Let_def split: option.splits)

lemma sorted_rank_list:
  "terminal s \<Longrightarrow>
     sorted (map statusRank (Queued # Processing # replicate n Processing @ [s]))"
  by (cases s) (auto simp: terminal_def sorted_append)

text \<open>
  C2, as stated, fails: an execution of the worker body that is delivered again after the
  job completed stores the status processing over the completed record.
\<close>

theorem redelivery_regresses_status:
  "map (status \<circ> snd)
     (writes (downloadWorker redisMockEnv sampleIO (sampleJobId, 70000)
        (lifecycle redisMockEnv sampleJobId sampleNow sampleIO [70000] emptyWorld))) =
   [Queued, Processing, Processing, Processing, Completed,
    Processing, Processing, Processing, Completed]"
  by (simp add: downloadWorker_def processDownloadJob_def run_sample)

text \<open>
  C2, amended. Along a submission and one execution of its work item the statuses written
  are queued, processing, processing again for each tick, and one terminal status, so the
  stored status never goes back in the order queued, processing, terminal. A tick changes
  the stored status of no record, and a terminal write stores a terminal status. The first
  write of the worker body is not guarded: it stores processing whatever the record held,
  also when the execution is a redelivery that starts after the terminal write.
\<close>

theorem status_order_of_one_execution:
  "(DownloadInitiateRequestSchema file_ids \<longrightarrow>
      (\<exists>s. terminal s \<and>
         map (status \<circ> snd) (newWrites w (lifecycle env uuid now io file_ids w)) =
           Queued # Processing # replicate (length (tickTimes io)) Processing @ [s])
      \<and> sorted (map (statusRank \<circ> status \<circ> snd)
                  (newWrites w (lifecycle env uuid now io file_ids w))))
   \<and> map_option status (getJobStatus (snd (progressTick j t (p, w))) j') =
       map_option status (getJobStatus w j')
   \<and> (\<exists>r. getJobStatus (finishJob env j f io w) j = Some r \<and> terminal (status r))
   \<and> map_option status (getJobStatus (startJob j f io w) j) = Some Processing"
proof -
  have a: "(\<exists>s. terminal s \<and>
         map (status \<circ> snd) (newWrites w (lifecycle env uuid now io file_ids w)) =
           Queued # Processing # replicate (length (tickTimes io)) Processing @ [s])
      \<and> sorted (map (statusRank \<circ> status \<circ> snd)
                  (newWrites w (lifecycle env uuid now io file_ids w)))"
    if v: "DownloadInitiateRequestSchema file_ids"
  proof -
    obtain fileId rest where f: "file_ids = fileId # rest"
      using v by (cases file_ids) (simp_all add: DownloadInitiateRequestSchema_def)
    obtain r where r: "newWrites w (lifecycle env uuid now io (fileId # rest) w) =
            (uuid, queuedResult fileId now) # (uuid, processingResult fileId io)
              # map (Pair uuid) (tickResults (processingResult fileId io) 0 (tickTimes io))
              @ [(uuid, r)]" "terminal (status r)"
      using lifecycle_writes [OF v [unfolded f]] by blast
    have t: "map status (tickResults (processingResult fileId io) 0 (tickTimes io)) =
               replicate (length (tickTimes io)) Processing"
      using tickResults_fields [of _ "processingResult fileId io" 0 "tickTimes io"]
      by (intro replicate_eqI) (auto simp: processingResult_def)
    have m: "map (status \<circ> snd) (newWrites w (lifecycle env uuid now io file_ids w)) =
           Queued # Processing # replicate (length (tickTimes io)) Processing @ [status r]"
      using t by (simp add: f r o_def queuedResult_def processingResult_def)
    have "map (statusRank \<circ> status \<circ> snd) (newWrites w (lifecycle env uuid now io file_ids w)) =
           map statusRank (map (status \<circ> snd) (newWrites w (lifecycle env uuid now io file_ids w)))"
      by (simp add: o_def)
    then have "sorted (map (statusRank \<circ> status \<circ> snd)
                  (newWrites w (lifecycle env uuid now io file_ids w)))"
      using sorted_rank_list [OF r(2), of "length (tickTimes io)"] by (simp only: m)
    moreover have "\<exists>s. terminal s \<and>
         map (status \<circ> snd) (newWrites w (lifecycle env uuid now io file_ids w)) =
           Queued # Processing # replicate (length (tickTimes io)) Processing @ [s]"
      by (rule exI [of _ "status r"]) (simp only: m r(2) simp_thms)
    ultimately show ?thesis by (rule conjI [rotated])
  qed
  have c: "\<exists>r. getJobStatus (finishJob env j f io w) j = Some r \<and> terminal (status r)"
    using finishJob_write [of env j f io w] by auto
  have d: "map_option status (getJobStatus (startJob j f io w) j) = Some Processing"
    by (simp add: startJob_def processingResult_def)
  show ?thesis
    by (intro conjI impI) (use a in blast, use a in blast, rule progressTick_status, rule c, rule d)
qed

theorem status_order_of_one_execution_witness:
  "map (status \<circ> snd)
     (writes (lifecycle redisMockEnv sampleJobId sampleNow sampleIO [70001] emptyWorld)) =
   [Queued, Processing, Processing, Processing, Failed]
   \<and> sorted (map (statusRank \<circ> status \<circ> snd)
        (writes (lifecycle redisMockEnv sampleJobId sampleNow sampleIO [70001] emptyWorld)))"
proof -
  have h: "DownloadInitiateRequestSchema [70001]"
    by (simp add: DownloadInitiateRequestSchema_def validFileId_def)
  have e: "newWrites emptyWorld w = writes w" for w
    by (simp add: newWrites_def emptyWorld_def)
  have s: "map (status \<circ> snd)
     (writes (lifecycle redisMockEnv sampleJobId sampleNow sampleIO [70001] emptyWorld)) =
   [Queued, Processing, Processing, Processing, Failed]"
    by (simp add: run_sample)
  show ?thesis
    using status_order_of_one_execution [where file_ids = "[70001]" and w = emptyWorld
        and env = redisMockEnv and uuid = sampleJobId and now = sampleNow and io = sampleIO]
      h s
    by (simp add: e)
qed

text \<open>
  C7. With no bucket configured, a submission whose first identifier is divisible by 7
  ends, once its work item has run, with the terminal write of a completed record with
  progress 100, a download URL and a size; a submission whose first identifier is not
  divisible by 7 ends with the terminal write of a failed record with progress 100, no URL
  and no size. The record is the last one written and the one the store then holds. The
  execution of the work item always comes to its terminal write, whatever the number of
  ticks.
\<close>

theorem mock_mode_outcome:
  assumes "S3_BUCKET_NAME env = []" and "DownloadInitiateRequestSchema (fileId # rest)"
  shows "\<exists>r. getJobStatus (lifecycle env uuid now io (fileId # rest) w) uuid = Some r
     \<and> last (writes (lifecycle env uuid now io (fileId # rest) w)) = (uuid, r)
     \<and> progress r = 100
     \<and> (if 7 dvd fileId
         then status r = Completed \<and> downloadUrl r \<noteq> None \<and> size_bytes r \<noteq> None
         else status r = Failed \<and> downloadUrl r = None \<and> size_bytes r = None)"
proof -
  obtain w2 where w2: "lifecycle env uuid now io (fileId # rest) w = finishJob env uuid fileId io w2"
    using lifecycle_before_finish [OF assms(2)] by blast
  show ?thesis
  proof (cases "7 dvd fileId")
    case True
    then have av: "available (checkS3Availability env (headObject io) (random io) fileId)"
      "s3Size (checkS3Availability env (headObject io) (random io) fileId) = Some (random io + 1000)"
      using assms(1) by (simp_all add: checkS3Availability_def Let_def smod_7_dvd)
    show ?thesis
      by (rule exI [of _ "completedResult uuid fileId io
            (generatePresignedUrl env (randomUUID io) (getSignedUrl io)
               (sanitizeS3Key (Finite (of_int fileId))))
            (Some (random io + 1000)) w2"])
         (simp add: w2 finishJob_cases av True generatePresignedUrl_def assms(1))
  next
    case False
    then have av: "\<not> available (checkS3Availability env (headObject io) (random io) fileId)"
      using assms(1) by (simp add: checkS3Availability_def Let_def smod_7_dvd)
    show ?thesis
      by (rule exI [of _ "failedResult uuid fileId io w2"])
         (simp add: w2 finishJob_cases av False)
  qed
qed

theorem mock_mode_outcome_witness:
  "(\<exists>r. getJobStatus (lifecycle mockEnv sampleJobId sampleNow sampleIO [70000] emptyWorld)
           sampleJobId = Some r
        \<and> status r = Completed \<and> progress r = 100 \<and> downloadUrl r \<noteq> None \<and> size_bytes r \<noteq> None)
   \<and> (\<exists>r. getJobStatus (lifecycle mockEnv sampleJobId sampleNow sampleIO [70001] emptyWorld)
           sampleJobId = Some r
        \<and> status r = Failed \<and> progress r = 100 \<and> downloadUrl r = None \<and> size_bytes r = None)"
proof -
  have m: "S3_BUCKET_NAME mockEnv = []" by (simp add: mockEnv_def)
  have h0: "DownloadInitiateRequestSchema [70000]"
    by (simp add: DownloadInitiateRequestSchema_def validFileId_def)
  have h1: "DownloadInitiateRequestSchema [70001]"
    by (simp add: DownloadInitiateRequestSchema_def validFileId_def)
  show ?thesis
    using mock_mode_outcome [OF m h0, where uuid = sampleJobId and now = sampleNow
        and io = sampleIO and w = emptyWorld]
      mock_mode_outcome [OF m h1, where uuid = sampleJobId and now = sampleNow
        and io = sampleIO and w = emptyWorld]
    by auto
qed

text \<open>
  C6, on the code. The first write of the worker body stores the clock of the worker, not
  the creation time that the submission stored: for a job submitted at 00:00:00 whose
  execution starts at 00:00:05, the creation times written are the one of the submission
  and then, in the processing record, in both tick records and in the terminal record, the
  one of the worker's start.
\<close>

theorem createdAt_rewritten_by_worker:
  "map (createdAt \<circ> snd)
     (writes (lifecycle redisMockEnv sampleJobId sampleNow sampleIO [70000] emptyWorld)) =
   [''2025-01-01T00:00:00.000Z'', ''2025-01-01T00:00:05.000Z'', ''2025-01-01T00:00:05.000Z'',
    ''2025-01-01T00:00:05.000Z'', ''2025-01-01T00:00:05.000Z'']"
  by (simp add: run_sample)

lemma run_snoc: "run env (evs @ [ev]) w = exec env ev (run env evs w)"
  by (simp add: run_def)

lemma urlInvariant_setJobStatus:
  "urlInvariant strict w \<Longrightarrow> urlRule strict r \<Longrightarrow> urlInvariant strict (setJobStatus j r w)"
  by (auto simp: urlInvariant_def)

lemma urlInvariant_pending [simp]:
  "urlInvariant strict (w\<lparr>queue := q\<rparr>) = urlInvariant strict w"
  "urlInvariant strict (w\<lparr>background := b\<rparr>) = urlInvariant strict w"
  by (simp_all add: urlInvariant_def getJobStatus_def)

lemma urlInvariant_expire: "urlInvariant strict w \<Longrightarrow> urlInvariant strict (expire j w)"
  by (auto simp: urlInvariant_def expire_def getJobStatus_def split: if_splits)

lemma urlRule_initial [simp]:
  "urlRule strict (queuedResult f now)" "urlRule strict (processingResult f io)"
  by (simp_all add: urlRule_def queuedResult_def processingResult_def)

lemma urlInvariant_initiate:
  assumes "urlInvariant strict w"
  shows "urlInvariant strict (snd (downloadInitiateRoute env uuid now io file_ids w))"
proof (cases "DownloadInitiateRequestSchema file_ids")
  case False
  then show ?thesis using assms by (simp add: downloadInitiateRoute_def)
next
  case True
  then obtain fileId rest where f: "file_ids = fileId # rest"
    by (cases file_ids) (simp_all add: DownloadInitiateRequestSchema_def)
  have q: "urlInvariant strict (setJobStatus uuid (queuedResult fileId now) w)"
    using assms by (simp add: urlInvariant_setJobStatus)
  then have "urlInvariant strict (startJob uuid fileId io (setJobStatus uuid (queuedResult fileId now) w))"
    by (simp add: startJob_def urlInvariant_setJobStatus)
  then show ?thesis using q True by (simp add: downloadInitiateRoute_def f Let_def)
qed

lemma urlInvariant_tick:
  assumes "urlInvariant strict w"
  shows "urlInvariant strict (snd (progressTick j now (p, w)))"
proof (cases "getJobStatus w j")
  case None
  then show ?thesis using assms by (simp add: progressTick_def Let_def)
next
  case (Some cur)
  show ?thesis
  proof (cases "status cur = Processing")
    case False
    then show ?thesis using assms Some by (simp add: progressTick_def Let_def)
  next
    case True
    have "(j, cur) \<in> set (writes w)" using assms Some by (simp add: urlInvariant_def)
    then have "urlRule strict cur" using assms by (auto simp: urlInvariant_def)
    then have "urlRule strict (cur\<lparr>progress := min (p + 10) 90, updatedAt := now\<rparr>)"
      by (simp add: urlRule_def)
    then show ?thesis
      using assms Some True by (simp add: progressTick_def Let_def urlInvariant_setJobStatus)
  qed
qed

lemma urlInvariant_finish:
  assumes "urlInvariant strict w" and "strict \<longrightarrow> issuanceSucceeds env (WorkerFinish j f io)"
  shows "urlInvariant strict (finishJob env j f io w)"
proof -
  obtain r where r: "finishJob env j f io w = setJobStatus j r w"
      "downloadUrl r \<noteq> None \<longrightarrow> status r = Completed"
      "status r = Completed \<longrightarrow> downloadUrl r =
             generatePresignedUrl env (randomUUID io) (getSignedUrl io)
               (sanitizeS3Key (Finite (of_int f)))"
    using finishJob_write [of env j f io w] by blast
  have "urlRule strict r" using r(2,3) assms(2) by (auto simp: urlRule_def)
  then show ?thesis using assms(1) by (simp add: r(1) urlInvariant_setJobStatus)
qed

lemma urlInvariant_exec:
  assumes "urlInvariant strict w" and "strict \<longrightarrow> issuanceSucceeds env ev"
  shows "urlInvariant strict (exec env ev w)"
proof (cases ev)
  case (Initiate uuid now io file_ids)
  then show ?thesis using assms(1) by (simp add: urlInvariant_initiate)
next
  case (WorkerStart j f io)
  then show ?thesis using assms(1) by (simp add: startJob_def urlInvariant_setJobStatus)
next
  case (WorkerTick j p now)
  then show ?thesis using assms(1) by (simp add: urlInvariant_tick)
next
  case (WorkerFinish j f io)
  then show ?thesis using assms by (simp add: urlInvariant_finish)
next
  case (Expire j)
  then show ?thesis using assms(1) by (simp add: urlInvariant_expire)
qed

lemma urlInvariant_run:
  "strict \<longrightarrow> list_all (issuanceSucceeds env) evs \<Longrightarrow>
     urlInvariant strict (run env evs emptyWorld)"
proof (induction evs rule: rev_induct)
  case Nil
  then show ?case by (simp add: run_def urlInvariant_def emptyWorld_def getJobStatus_def)
next
  case (snoc ev evs)
  then show ?case by (simp add: run_snoc urlInvariant_exec)
qed

lemma mock_issuance: "S3_BUCKET_NAME env = [] \<Longrightarrow> issuanceSucceeds env ev"
  by (cases ev) (simp_all add: generatePresignedUrl_def)

text \<open>
  C1, as stated, fails: with a bucket configured, an object store that has the file and a
  signer that throws, the terminal write stores the status completed with no download URL.
\<close>

theorem completed_without_url:
  "map (\<lambda>(j, r). (status r, downloadUrl r))
     (writes (run bucketEnv
        [Initiate sampleJobId sampleNow sampleIO [70000],
         WorkerStart sampleJobId 70000 sampleIO,
         WorkerFinish sampleJobId 70000 sampleIO] emptyWorld)) =
   [(Queued, None), (Processing, None), (Completed, None)]"
  by (simp add: run_def downloadInitiateRoute_def run_sample)

text \<open>
  C1, amended. In every state reached from the empty one by submissions, worker starts,
  ticks, terminal writes and expiries in any order, every record written with a download
  URL has the status completed, and so has every stored record with a URL: a write with
  another status stores no URL. When no bucket is configured, or when the signer returned
  a URL at every terminal write, the converse holds too: every completed record written or
  stored has a URL. A completed write whose signer threw stores no URL.
\<close>

theorem download_url_rule:
  "(\<forall>(j, r) \<in> set (writes (run env evs emptyWorld)). downloadUrl r \<noteq> None \<longrightarrow> status r = Completed)
   \<and> (\<forall>j r. getJobStatus (run env evs emptyWorld) j = Some r \<longrightarrow>
          downloadUrl r \<noteq> None \<longrightarrow> status r = Completed)
   \<and> (S3_BUCKET_NAME env = [] \<or> list_all (issuanceSucceeds env) evs \<longrightarrow>
        (\<forall>(j, r) \<in> set (writes (run env evs emptyWorld)).
            (downloadUrl r \<noteq> None) = (status r = Completed))
        \<and> (\<forall>j r. getJobStatus (run env evs emptyWorld) j = Some r \<longrightarrow>
            (downloadUrl r \<noteq> None) = (status r = Completed)))"
proof -
  have weak: "urlInvariant False (run env evs emptyWorld)"
    by (rule urlInvariant_run) simp
  have strict: "urlInvariant True (run env evs emptyWorld)"
    if "S3_BUCKET_NAME env = [] \<or> list_all (issuanceSucceeds env) evs"
  proof -
    have "list_all (issuanceSucceeds env) evs"
      using that mock_issuance [of env] by (auto simp: list_all_iff)
    then show ?thesis by (simp add: urlInvariant_run)
  qed
  have a: "\<forall>(j, r) \<in> set (writes (run env evs emptyWorld)). downloadUrl r \<noteq> None \<longrightarrow> status r = Completed"
    using weak by (auto simp: urlInvariant_def urlRule_def)
  have b: "\<forall>j r. getJobStatus (run env evs emptyWorld) j = Some r \<longrightarrow>
          downloadUrl r \<noteq> None \<longrightarrow> status r = Completed"
    using weak by (fastforce simp: urlInvariant_def urlRule_def)
  have c: "(\<forall>(j, r) \<in> set (writes (run env evs emptyWorld)).
            (downloadUrl r \<noteq> None) = (status r = Completed))
        \<and> (\<forall>j r. getJobStatus (run env evs emptyWorld) j = Some r \<longrightarrow>
            (downloadUrl r \<noteq> None) = (status r = Completed))"
    if "S3_BUCKET_NAME env = [] \<or> list_all (issuanceSucceeds env) evs"
    using strict [OF that] by (fastforce simp: urlInvariant_def urlRule_def)
  show ?thesis
    by (intro conjI impI) (rule a, rule b, use c in blast, use c in blast)
qed

theorem download_url_rule_witness:
  "map (\<lambda>(j, r). (status r, downloadUrl r \<noteq> None))
     (writes (run mockEnv
        [Initiate sampleJobId sampleNow sampleIO [70000],
         WorkerTick sampleJobId 0 ''2025-01-01T00:00:07.000Z'',
         WorkerFinish sampleJobId 70000 sampleIO] emptyWorld)) =
   [(Queued, False), (Processing, False), (Processing, False), (Completed, True)]"
  using download_url_rule [where env = mockEnv and evs =
        "[Initiate sampleJobId sampleNow sampleIO [70000],
          WorkerTick sampleJobId 0 ''2025-01-01T00:00:07.000Z'',
          WorkerFinish sampleJobId 70000 sampleIO]"]
  by (simp add: run_def downloadInitiateRoute_def run_sample)

lemma below_ten: "d < 10 \<Longrightarrow> d \<in> {0, 1, 2, 3, 4, 5, 6, 7, 8, 9::nat}"
  by auto

lemma digit_is_digit: "d < 10 \<Longrightarrow> is_digit (digit d)"
  using below_ten [of d] by (auto simp: digit_def is_digit_def)

lemma digit_value_digit: "d < 10 \<Longrightarrow> digit_value (digit d) = d"
  using below_ten [of d] by (auto simp: digit_def digit_value_def)

lemma decimal_value_snoc:
  "decimal_value (ds @ [c]) = 10 * decimal_value ds + digit_value c"
  by (simp add: decimal_value_def)

lemma String_nat_nonempty: "String_nat n \<noteq> []"
  by (subst String_nat.simps) simp

lemma String_nat_digits: "list_all is_digit (String_nat n)"
proof (induction n rule: String_nat.induct)
  case (1 n)
  show ?case
  proof (cases "n < 10")
    case True
    then show ?thesis by (subst String_nat.simps) (simp add: digit_is_digit)
  next
    case False
    then show ?thesis using 1 by (subst String_nat.simps) (simp add: digit_is_digit)
  qed
qed

lemma decimal_value_String_nat: "decimal_value (String_nat n) = n"
proof (induction n rule: String_nat.induct)
  case (1 n)
  show ?case
  proof (cases "n < 10")
    case True
    then show ?thesis
      by (subst String_nat.simps) (simp add: decimal_value_def digit_value_digit)
  next
    case False
    then have "decimal_value (String_nat (n div 10)) = n div 10" using 1 by simp
    then show ?thesis using False
      by (subst String_nat.simps) (simp add: decimal_value_snoc digit_value_digit)
  qed
qed

lemma String_nat_no_leading_zero: "hd (String_nat n) \<noteq> CHR ''0'' \<or> String_nat n = ''0''"
proof (induction n rule: String_nat.induct)
  case (1 n)
  show ?case
  proof (cases "n < 10")
    case True
    have "digit n = CHR ''0'' \<Longrightarrow> n = 0"
      using digit_value_digit [OF True] by (simp add: digit_value_def)
    then show ?thesis using True
      by (subst (1 2) String_nat.simps) (auto simp: digit_def)
  next
    case False
    have "String_nat (n div 10) \<noteq> ''0''"
    proof
      assume "String_nat (n div 10) = ''0''"
      then have "decimal_value (String_nat (n div 10)) = 0"
        by (simp add: decimal_value_def digit_value_def)
      then show False using False by (simp add: decimal_value_String_nat)
    qed
    then have "hd (String_nat (n div 10)) \<noteq> CHR ''0''" using 1 False by simp
    then show ?thesis using False String_nat_nonempty [of "n div 10"]
      by (subst (1 2) String_nat.simps) simp
  qed
qed

lemma is_decimal_String_nat: "is_decimal (String_nat n) n"
  unfolding is_decimal_def
  by (intro conjI) (rule String_nat_nonempty, rule String_nat_digits,
      rule String_nat_no_leading_zero, rule decimal_value_String_nat)

lemma is_digit_no_separator: "is_digit c \<Longrightarrow> c \<noteq> CHR ''/'' \<and> c \<noteq> CHR ''.''"
  by (auto simp: is_digit_def)

lemma digits_separator_free: "list_all is_digit ds \<Longrightarrow> separator_free ds"
  unfolding separator_free_def list_all_iff using is_digit_no_separator by blast

lemma floor_abs_nonneg: "String_number (Math_floor (Math_abs (Finite q))) = String_nat (nat \<lfloor>\<bar>q\<bar>\<rfloor>)"
  by simp

text \<open>
  C10, as stated, fails: \<^verbatim>\<open>NaN\<close> is a number, and for it the function returns a key
  whose middle part is not a string of decimal digits.
\<close>

theorem sanitizeS3Key_NaN:
  "sanitizeS3Key NaN = ''downloads/'' @ ''NaN'' @ ''.zip'' \<and> \<not> list_all is_digit ''NaN''"
  by (simp add: sanitizeS3Key_def is_digit_def)

text \<open>
  C10, amended. For every finite number of magnitude below \<open>2 ^ 53\<close>, negative and
  fractional ones included, the key is \<^verbatim>\<open>downloads/\<close>, then the decimal representation
  of the floor of the magnitude, then \<^verbatim>\<open>.zip\<close>. For these numbers and for
  \<^verbatim>\<open>NaN\<close> and the infinities, what stands between \<^verbatim>\<open>downloads/\<close> and
  \<^verbatim>\<open>.zip\<close> has no slash and no dot, so the key has no path separator
  but the one of the template and no traversal sequence.
\<close>

theorem sanitizeS3Key_shape:
  "(\<bar>q\<bar> < 2 ^ 53 \<longrightarrow>
      sanitizeS3Key (Finite q) = ''downloads/'' @ String_nat (nat \<lfloor>\<bar>q\<bar>\<rfloor>) @ ''.zip''
      \<and> is_decimal (String_nat (nat \<lfloor>\<bar>q\<bar>\<rfloor>)) (nat \<lfloor>\<bar>q\<bar>\<rfloor>))
   \<and> (printable x \<longrightarrow>
        (\<exists>body. sanitizeS3Key x = ''downloads/'' @ body @ ''.zip'' \<and> separator_free body))"
proof -
  have a: "sanitizeS3Key (Finite q) = ''downloads/'' @ String_nat (nat \<lfloor>\<bar>q\<bar>\<rfloor>) @ ''.zip''"
    by (simp add: sanitizeS3Key_def)
  have b: "\<exists>body. sanitizeS3Key x = ''downloads/'' @ body @ ''.zip'' \<and> separator_free body"
  proof (cases x)
    case NaN
    then show ?thesis by (simp add: sanitizeS3Key_def separator_free_def)
  next
    case Infinity
    then show ?thesis by (simp add: sanitizeS3Key_def separator_free_def)
  next
    case NegInfinity
    then show ?thesis by (simp add: sanitizeS3Key_def separator_free_def)
  next
    case (Finite r)
    have "separator_free (String_nat (nat \<lfloor>\<bar>r\<bar>\<rfloor>))"
      by (rule digits_separator_free) (rule String_nat_digits)
    then show ?thesis using Finite by (simp add: sanitizeS3Key_def)
  qed
  show ?thesis
    by (intro conjI impI) (rule a, rule is_decimal_String_nat, rule b)
qed

lemma floor_sample: "\<lfloor>(140001 / 2 :: rat)\<rfloor> = 70000"
  by (rule floor_unique) simp_all

theorem sanitizeS3Key_shape_witness:
  "sanitizeS3Key (Finite (- 140001 / 2)) = ''downloads/70000.zip''
   \<and> is_decimal ''70000'' 70000
   \<and> sanitizeS3Key NegInfinity = ''downloads/Infinity.zip''"
proof -
  have h: "\<bar>- 140001 / 2 :: rat\<bar> < 2 ^ 53" by simp
  have s: "String_nat 70000 = ''70000''" by (simp add: String_nat.simps digit_def)
  have i: "sanitizeS3Key NegInfinity = ''downloads/Infinity.zip''"
    by (simp add: sanitizeS3Key_def)
  show ?thesis
    using sanitizeS3Key_shape [where q = "- 140001 / 2" and x = NegInfinity] h i
    by (simp add: floor_sample s printable_def)
qed

end
